theory Spec2Isabelle
  imports Main
begin

section \<open>Android resource strings: \<open>unescape\<close> and \<open>escape\<close> of \<open>aresource.py\<close>\<close>

text \<open>
  The module is Python 2. A string is modelled as the list of its code points (a
  \<open>unicode\<close> object; a byte \<open>str\<close> holding ASCII is the same list), because
  \<open>unichr\<close> produces code points up to \<open>0xFFFF\<close>. The working buffer of
  \<open>unescape\<close> is a list whose elements are one-character strings or the marker
  \<open>EOF = None\<close>; it is modelled as a list of \<open>codepoint option\<close>.
\<close>

type_synonym codepoint = nat
type_synonym ustring = "codepoint list"

definition ustr :: "string \<Rightarrow> ustring" where
  "ustr s = map of_char s"

abbreviation TAB :: codepoint where "TAB \<equiv> 9"
abbreviation NEWLINE :: codepoint where "NEWLINE \<equiv> 10"
abbreviation SPACE :: codepoint where "SPACE \<equiv> 32"
abbreviation DQUOTE :: codepoint where "DQUOTE \<equiv> 34"
abbreviation PERCENT :: codepoint where "PERCENT \<equiv> 37"
abbreviation SQUOTE :: codepoint where "SQUOTE \<equiv> 39"
abbreviation LESS :: codepoint where "LESS \<equiv> 60"
abbreviation GREATER :: codepoint where "GREATER \<equiv> 62"
abbreviation AT :: codepoint where "AT \<equiv> 64"
abbreviation BACKSLASH :: codepoint where "BACKSLASH \<equiv> 92"

text \<open>\<^verbatim>\<open>EOF = None\<close> and \<^verbatim>\<open>WHITESPACE = ' \n\t'\<close>.\<close>

abbreviation EOF :: "codepoint option" where "EOF \<equiv> None"

definition WHITESPACE :: ustring where
  "WHITESPACE = [SPACE, NEWLINE, TAB]"

subsection \<open>Exceptions\<close>

datatype error =
    NameError string
  | ValueError ustring
  | TypeError
  | IndexError

subsection \<open>The Python list and string primitives the code uses\<close>

text \<open>Item access \<^verbatim>\<open>xs[k]\<close>: a negative index counts from the end, an index out of
  range raises.\<close>

definition py_index :: "'a list \<Rightarrow> int \<Rightarrow> error + nat" where
  "py_index xs k =
     (let n = int (length xs); j = (if k < 0 then k + n else k)
      in if 0 \<le> j \<and> j < n then Inr (nat j) else Inl IndexError)"

definition py_getitem :: "'a list \<Rightarrow> int \<Rightarrow> error + 'a" where
  "py_getitem xs k = (case py_index xs k of Inl e \<Rightarrow> Inl e | Inr j \<Rightarrow> Inr (xs ! j))"

definition py_setitem :: "'a list \<Rightarrow> int \<Rightarrow> 'a \<Rightarrow> error + 'a list" where
  "py_setitem xs k v = (case py_index xs k of Inl e \<Rightarrow> Inl e | Inr j \<Rightarrow> Inr (xs[j := v]))"

definition py_delitem :: "'a list \<Rightarrow> int \<Rightarrow> error + 'a list" where
  "py_delitem xs k =
     (case py_index xs k of Inl e \<Rightarrow> Inl e | Inr j \<Rightarrow> Inr (take j xs @ drop (Suc j) xs))"

text \<open>Slices \<^verbatim>\<open>xs[a:b]\<close>: a negative bound counts from the end, and every bound is
  clamped to the list. Assigning to a slice whose upper bound lies below its lower bound
  inserts at the lower bound.\<close>

definition py_bound :: "'a list \<Rightarrow> int \<Rightarrow> nat" where
  "py_bound xs k =
     (let n = int (length xs) in nat (if k < 0 then max (k + n) 0 else min k n))"

definition py_getslice :: "'a list \<Rightarrow> int \<Rightarrow> int \<Rightarrow> 'a list" where
  "py_getslice xs a b = drop (py_bound xs a) (take (py_bound xs b) xs)"

definition py_setslice :: "'a list \<Rightarrow> int \<Rightarrow> int \<Rightarrow> 'a list \<Rightarrow> 'a list" where
  "py_setslice xs a b new =
     (let lo = py_bound xs a; hi = max lo (py_bound xs b)
      in take lo xs @ new @ drop hi xs)"

text \<open>\<^verbatim>\<open>"".join(xs)\<close> on a list of one-character strings; an element \<^verbatim>\<open>None\<close>
  raises \<^verbatim>\<open>TypeError\<close>.\<close>

definition py_join :: "codepoint option list \<Rightarrow> error + ustring" where
  "py_join xs = (if None \<in> set xs then Inl TypeError else Inr (map the xs))"

text \<open>\<^verbatim>\<open>s.replace(old, new)\<close>: the occurrences of \<open>old\<close> are replaced from left to
  right, without overlap. (The code never passes an empty \<open>old\<close>; Python then puts
  \<open>new\<close> before every character and at the end.)\<close>

function py_replace :: "'a list \<Rightarrow> 'a list \<Rightarrow> 'a list \<Rightarrow> 'a list" where
  "py_replace old new s =
     (if old = [] then new @ concat (map (\<lambda>c. c # new) s)
      else if s = [] then []
      else if take (length old) s = old then new @ py_replace old new (drop (length old) s)
      else hd s # py_replace old new (tl s))"
  by pat_completeness auto
termination
  by (relation "measure (\<lambda>(old, new, s). length s)") auto

declare py_replace.simps [simp del]

text \<open>\<^verbatim>\<open>s.startswith(p)\<close>.\<close>

definition py_startswith :: "'a list \<Rightarrow> 'a list \<Rightarrow> bool" where
  "py_startswith s p = (take (length p) s = p)"

text \<open>\<^verbatim>\<open>s.isalnum()\<close>: the string is not empty and every character is alphanumeric.
  For ASCII these are the digits and the letters. For a code point above 127 Python asks
  the Unicode database; the model answers no. In the only use below this changes nothing
  for letters, since \<^verbatim>\<open>int\<close> then raises a \<^verbatim>\<open>ValueError\<close> too, and it leaves out
  the non-ASCII decimal digits, which \<^verbatim>\<open>int\<close> would accept.\<close>

definition is_alnum :: "codepoint \<Rightarrow> bool" where
  "is_alnum c = ((48 \<le> c \<and> c \<le> 57) \<or> (65 \<le> c \<and> c \<le> 90) \<or> (97 \<le> c \<and> c \<le> 122))"

definition py_isalnum :: "ustring \<Rightarrow> bool" where
  "py_isalnum s = (s \<noteq> [] \<and> list_all is_alnum s)"

text \<open>\<^verbatim>\<open>int(s, 16)\<close> on an alphanumeric string: an optional prefix \<^verbatim>\<open>0x\<close> or
  \<^verbatim>\<open>0X\<close> that a hexadecimal digit follows is skipped, then every character must be a
  hexadecimal digit. (Surrounding blanks and a sign, which \<^verbatim>\<open>int\<close> also accepts, are
  not alphanumeric and never reach it.) As in \<open>py_isalnum\<close>, only ASCII digits are
  read: the decimal digits of other scripts, which \<^verbatim>\<open>int\<close> converts to ASCII first,
  are left out, so the model raises where the code decodes a \<^verbatim>\<open>\u\<close> sequence
  written with such digits.\<close>

definition hex_value :: "codepoint \<Rightarrow> nat option" where
  "hex_value c =
     (if 48 \<le> c \<and> c \<le> 57 then Some (c - 48)
      else if 97 \<le> c \<and> c \<le> 102 then Some (c - 87)
      else if 65 \<le> c \<and> c \<le> 70 then Some (c - 55)
      else None)"

definition is_hex :: "codepoint \<Rightarrow> bool" where
  "is_hex c = (hex_value c \<noteq> None)"

definition py_int16 :: "ustring \<Rightarrow> error + nat" where
  "py_int16 s =
     (let digits =
            (case s of
               z # x # d # _ \<Rightarrow>
                 if z = 48 \<and> (x = 120 \<or> x = 88) \<and> is_hex d then drop 2 s else s
             | _ \<Rightarrow> s)
      in if digits \<noteq> [] \<and> list_all is_hex digits
         then Inr (foldl (\<lambda>a c. 16 * a + the (hex_value c)) 0 digits)
         else Inl (ValueError (ustr ''invalid literal for int() with base 16'')))"

text \<open>\<^verbatim>\<open>unichr(n)\<close>: one character, or \<^verbatim>\<open>ValueError\<close> beyond the range of the
  build (\<open>0xFFFF\<close> on a narrow build; four digits never exceed it).\<close>

definition py_unichr :: "nat \<Rightarrow> error + codepoint" where
  "py_unichr n = (if n \<le> 65535 then Inr n else Inl (ValueError (ustr ''unichr() arg not in range'')))"

subsection \<open>The state of the scan\<close>

record state =
  "text" :: "codepoint option list"
  i :: int
  space_count :: int
  active_quote :: bool
  active_percent :: bool
  active_escape :: bool
  formatted :: bool

definition initial_state :: "ustring \<Rightarrow> state" where
  "initial_state t =
     \<lparr>text = map Some t @ [EOF], i = 0, space_count = 0, active_quote = False,
      active_percent = False, active_escape = False, formatted = False\<rparr>"

subsection \<open>The body of the loop, in the order of the source\<close>

text \<open>Handle whitespace collapsing.\<close>

definition handle_whitespace :: "codepoint option \<Rightarrow> state \<Rightarrow> error + state" where
  "handle_whitespace c s =
     (if c \<noteq> EOF \<and> the c \<in> set WHITESPACE then
        Inr (s\<lparr>space_count := space_count s + 1\<rparr>)
      else if space_count s > 1 then
        (if \<not> active_quote s \<or> c = EOF then
           Inr (s\<lparr>text := py_setslice (text s) (i s - space_count s) (i s) [Some SPACE],
                  i := i s - (space_count s - 1),
                  space_count := 0\<rparr>)
         else Inr (s\<lparr>space_count := 0\<rparr>))
      else if space_count s = 1 then
        (case py_setitem (text s) (i s - 1) (Some SPACE) of
           Inl e \<Rightarrow> Inl e
         | Inr t \<Rightarrow> Inr (s\<lparr>text := t, space_count := 0\<rparr>))
      else Inr (s\<lparr>space_count := 0\<rparr>))"

text \<open>Handle quotes.\<close>

definition handle_quotes :: "codepoint option \<Rightarrow> state \<Rightarrow> error + state" where
  "handle_quotes c s =
     (if c = Some DQUOTE \<and> \<not> active_escape s then
        (case py_delitem (text s) (i s) of
           Inl e \<Rightarrow> Inl e
         | Inr t \<Rightarrow> Inr (s\<lparr>active_quote := \<not> active_quote s, text := t, i := i s - 1\<rparr>))
      else Inr s)"

text \<open>Percentage signs of \<^verbatim>\<open>String.format\<close>.\<close>

definition handle_percent :: "codepoint option \<Rightarrow> state \<Rightarrow> state" where
  "handle_percent c s =
     (if c = Some PERCENT \<and> \<not> active_escape s then
        s\<lparr>active_percent := \<not> active_percent s\<rparr>
      else if \<not> active_escape s \<and> active_percent s then
        s\<lparr>formatted := True, active_percent := False\<rparr>
      else s)"

text \<open>The unicode sequence \<^verbatim>\<open>\u\<close>: the next four characters, fewer at the end of
  the string. The debugging \<^verbatim>\<open>print repr(codepoint_str)\<close> writes to standard output
  and changes nothing of the scan; it is left out. \<^verbatim>\<open>"".join\<close> stands before the
  \<^verbatim>\<open>try\<close>, so its error is not caught; every \<^verbatim>\<open>ValueError\<close> inside the
  \<^verbatim>\<open>try\<close> is replaced by the one of the \<^verbatim>\<open>except\<close> clause.\<close>

definition parse_codepoint :: "ustring \<Rightarrow> error + codepoint" where
  "parse_codepoint joined =
     (let codepoint_str =
            (if length joined < 4 then replicate (4 - length joined) 48 @ joined
             else joined)
      in case (if \<not> py_isalnum codepoint_str then Inl (ValueError codepoint_str)
               else (case py_int16 codepoint_str of
                       Inl e \<Rightarrow> Inl e
                     | Inr n \<Rightarrow> py_unichr n)) of
           Inl e \<Rightarrow> Inl (ValueError (ustr ''bad unicode escape sequence''))
         | Inr codepoint \<Rightarrow> Inr codepoint)"

definition unicode_sequence :: "state \<Rightarrow> error + state" where
  "unicode_sequence s =
     (let max_slice = min (i s + 5) (int (length (text s)) - 1) in
      case py_join (py_getslice (text s) (i s + 1) max_slice) of
        Inl e \<Rightarrow> Inl e
      | Inr joined \<Rightarrow>
          (case parse_codepoint joined of
             Inl e \<Rightarrow> Inl e
           | Inr codepoint \<Rightarrow>
               Inr (s\<lparr>text := py_setslice (text s) (i s - 1) max_slice [Some codepoint],
                      i := i s - 1\<rparr>)))"

text \<open>Handle escapes. The last branch builds its message from \<^verbatim>\<open>name\<close>, which is
  neither a local variable of \<^verbatim>\<open>unescape\<close> nor a global of the module: evaluating it
  raises \<^verbatim>\<open>NameError\<close> before the \<^verbatim>\<open>ValueError\<close> is constructed.\<close>

definition handle_escapes :: "codepoint option \<Rightarrow> state \<Rightarrow> error + state" where
  "handle_escapes c s =
     (if c = Some BACKSLASH then
        (if \<not> active_escape s then Inr (s\<lparr>active_escape := True\<rparr>)
         else
           (case py_delitem (text s) (i s) of
              Inl e \<Rightarrow> Inl e
            | Inr t \<Rightarrow> Inr (s\<lparr>text := t, i := i s - 1, active_escape := False\<rparr>)))
      else if active_escape s then
        (case
           (if c = EOF then Inr s
            else if c = Some 110 then
              Inr (s\<lparr>text := py_setslice (text s) (i s - 1) (i s + 1) [Some NEWLINE],
                     i := i s - 1\<rparr>)
            else if c = Some 116 then
              Inr (s\<lparr>text := py_setslice (text s) (i s - 1) (i s + 1) [Some TAB],
                     i := i s - 1\<rparr>)
            else if the c \<in> set [DQUOTE, SQUOTE, AT] then
              Inr (s\<lparr>text := py_setslice (text s) (i s - 1) (i s) [], i := i s - 1\<rparr>)
            else if c = Some 117 then unicode_sequence s
            else Inl (NameError ''name''))
         of
           Inl e \<Rightarrow> Inl e
         | Inr s' \<Rightarrow> Inr (s'\<lparr>active_escape := False\<rparr>))
      else Inr s)"

text \<open>One iteration: \<^verbatim>\<open>c = text[i]\<close>, the four blocks, \<^verbatim>\<open>i += 1\<close>.\<close>

definition loop_body :: "state \<Rightarrow> error + state" where
  "loop_body s =
     (case py_getitem (text s) (i s) of
        Inl e \<Rightarrow> Inl e
      | Inr c \<Rightarrow>
          (case handle_whitespace c s of
             Inl e \<Rightarrow> Inl e
           | Inr s1 \<Rightarrow>
               (case handle_quotes c s1 of
                  Inl e \<Rightarrow> Inl e
                | Inr s2 \<Rightarrow>
                    (case handle_escapes c (handle_percent c s2) of
                       Inl e \<Rightarrow> Inl e
                     | Inr s4 \<Rightarrow> Inr (s4\<lparr>i := i s4 + 1\<rparr>)))))"

text \<open>\<^verbatim>\<open>while i < len(text)\<close>. The result \<open>None\<close> stands for a loop that never
  ends; an exception ends it with \<open>Some (Inl e)\<close>.\<close>

partial_function (option) unescape_loop :: "state \<Rightarrow> (error + state) option" where
  "unescape_loop s =
     (if i s < int (length (text s)) then
        (case loop_body s of
           Inl e \<Rightarrow> Some (Inl e)
         | Inr s' \<Rightarrow> unescape_loop s')
      else Some (Inr s))"

declare unescape_loop.simps [code]

subsection \<open>\<open>unescape\<close> and \<open>escape\<close>\<close>

text \<open>The method returns \<^verbatim>\<open>"".join(text[:-1])\<close> only: a string, or \<^verbatim>\<open>None\<close>
  for \<^verbatim>\<open>None\<close>.\<close>

definition preprocess :: "ustring \<Rightarrow> ustring" where
  "preprocess t0 =
     (let t1 = py_replace [LESS] (ustr ''&lt;'') t0;
          t2 = py_replace [GREATER] (ustr ''&gt;'') t1
      in t2)"

definition final_state :: "ustring \<Rightarrow> (error + state) option" where
  "final_state t0 = unescape_loop (initial_state (preprocess t0))"

definition unescape :: "ustring option \<Rightarrow> (error + ustring option) option" where
  "unescape text0 =
     (case text0 of
        None \<Rightarrow> Some (Inr None)
      | Some t0 \<Rightarrow>
          (case final_state t0 of
             None \<Rightarrow> None
           | Some (Inl e) \<Rightarrow> Some (Inl e)
           | Some (Inr s) \<Rightarrow>
               (case py_join (py_getslice (text s) 0 (- 1)) of
                  Inl e \<Rightarrow> Some (Inl e)
                | Inr r \<Rightarrow> Some (Inr (Some r)))))"

text \<open>The value of the local variable \<^verbatim>\<open>formatted\<close> when the loop has ended.\<close>

definition computed_formatted :: "ustring \<Rightarrow> (error + bool) option" where
  "computed_formatted t0 = map_option (map_sum id formatted) (final_state t0)"

text \<open>\<^verbatim>\<open>'\\@' + text[1:]\<close> is written with the slice \<open>text[1:]\<close>, which is
  \<open>tl\<close> on a list.\<close>

definition escape :: "ustring option \<Rightarrow> ustring option" where
  "escape text0 =
     (case text0 of
        None \<Rightarrow> None
      | Some t0 \<Rightarrow>
          (let t1 = py_replace [BACKSLASH] [BACKSLASH, BACKSLASH] t0;
               t2 = py_replace [NEWLINE] [BACKSLASH, 110] t1;
               t3 = py_replace [TAB] [BACKSLASH, 116] t2;
               t4 = py_replace [SQUOTE] [BACKSLASH, SQUOTE] t3;
               t5 = py_replace [DQUOTE] [BACKSLASH, DQUOTE] t4
           in Some (if py_startswith t5 [AT] then [BACKSLASH, AT] @ tl t5 else t5)))"

subsection \<open>The loop with a bound on its iterations\<close>

text \<open>The same loop cut off after \<open>n\<close> iterations: \<open>None\<close> when the condition
  \<^verbatim>\<open>i < len(text)\<close> still holds after them. It serves to state how many iterations the
  loop needs.\<close>

fun unescape_loop_upto :: "nat \<Rightarrow> state \<Rightarrow> (error + state) option" where
  "unescape_loop_upto 0 s = (if i s < int (length (text s)) then None else Some (Inr s))"
| "unescape_loop_upto (Suc n) s =
     (if i s < int (length (text s)) then
        (case loop_body s of
           Inl e \<Rightarrow> Some (Inl e)
         | Inr s' \<Rightarrow> unescape_loop_upto n s')
      else Some (Inr s))"


subsection \<open>The encoder in the words of the specification\<close>

text \<open>A whole-string character substitution, and the five substitutions in the order
  the specification gives, followed by the guard for a leading \<open>@\<close>.\<close>

definition substitute :: "'a \<Rightarrow> 'a list \<Rightarrow> 'a list \<Rightarrow> 'a list" where
  "substitute c new s = concat (map (\<lambda>x. if x = c then new else [x]) s)"

definition encode_spec :: "ustring \<Rightarrow> ustring" where
  "encode_spec s =
     (let r1 = substitute BACKSLASH [BACKSLASH, BACKSLASH] s;
          r2 = substitute NEWLINE [BACKSLASH, 110] r1;
          r3 = substitute TAB [BACKSLASH, 116] r2;
          r4 = substitute SQUOTE [BACKSLASH, SQUOTE] r3;
          r5 = substitute DQUOTE [BACKSLASH, DQUOTE] r4
      in if r5 \<noteq> [] \<and> hd r5 = AT then BACKSLASH # r5 else r5)"


subsection \<open>Two spaces in a row\<close>

text \<open>Whether a string holds two adjacent space characters.\<close>

fun adjacent_spaces :: "ustring \<Rightarrow> bool" where
  "adjacent_spaces (x # y # zs) = ((x = SPACE \<and> y = SPACE) \<or> adjacent_spaces (y # zs))"
| "adjacent_spaces _ = False"

section \<open>A scanner that only moves forward\<close>

text \<open>
  The loop rewrites its buffer in place: everything before the index \<open>i\<close> is output
  already produced, everything from \<open>i\<close> on is input still to be read. The scanner
  below keeps the two apart: \<open>out\<close> is the output so far, the input is consumed from the
  front, and the remaining fields are the flags of the loop. Its steps follow the blocks
  of the loop body; it is related to the loop by the lemmas of the next section, and the
  theorems about \<open>unescape\<close> are proved through it.
\<close>

record scan =
  out :: ustring
  run :: nat
  quote :: bool
  percent :: bool
  esc :: bool
  fmt :: bool

definition fw_whitespace :: "codepoint option \<Rightarrow> scan \<Rightarrow> scan" where
  "fw_whitespace c a =
     (if c \<noteq> EOF \<and> the c \<in> set WHITESPACE then a\<lparr>run := run a + 1\<rparr>
      else if run a > 1 then
        (if \<not> quote a \<or> c = EOF then
           a\<lparr>out := take (length (out a) - run a) (out a) @ [SPACE], run := 0\<rparr>
         else a\<lparr>run := 0\<rparr>)
      else if run a = 1 then a\<lparr>out := butlast (out a) @ [SPACE], run := 0\<rparr>
      else a\<lparr>run := 0\<rparr>)"

definition fw_percent :: "codepoint option \<Rightarrow> scan \<Rightarrow> scan" where
  "fw_percent c a =
     (if c = Some PERCENT \<and> \<not> esc a then a\<lparr>percent := \<not> percent a\<rparr>
      else if \<not> esc a \<and> percent a then a\<lparr>fmt := True, percent := False\<rparr>
      else a)"

definition fw_step :: "codepoint \<Rightarrow> ustring \<Rightarrow> scan \<Rightarrow> error + scan \<times> nat" where
  "fw_step c cs a0 =
     (let a1 = fw_whitespace (Some c) a0 in
      if c = DQUOTE \<and> \<not> esc a1 then
        Inr (fw_percent (Some c) (a1\<lparr>quote := \<not> quote a1\<rparr>), 0)
      else
        (let a2 = fw_percent (Some c) a1 in
         if c = BACKSLASH then
           (if \<not> esc a2 then Inr (a2\<lparr>out := out a2 @ [c], esc := True\<rparr>, 0)
            else Inr (a2\<lparr>esc := False\<rparr>, 0))
         else if esc a2 then
           (if c = 110 then Inr (a2\<lparr>out := butlast (out a2) @ [NEWLINE], esc := False\<rparr>, 0)
            else if c = 116 then Inr (a2\<lparr>out := butlast (out a2) @ [TAB], esc := False\<rparr>, 0)
            else if c \<in> set [DQUOTE, SQUOTE, AT] then
              Inr (a2\<lparr>out := butlast (out a2) @ [c], esc := False\<rparr>, 0)
            else if c = 117 then
              (case parse_codepoint (take 4 cs) of
                 Inl e \<Rightarrow> Inl e
               | Inr cp \<Rightarrow> Inr (a2\<lparr>out := butlast (out a2) @ [cp], esc := False\<rparr>, 4))
            else Inl (NameError ''name''))
         else Inr (a2\<lparr>out := out a2 @ [c]\<rparr>, 0)))"

definition fw_eof :: "scan \<Rightarrow> scan" where
  "fw_eof a = (fw_percent EOF (fw_whitespace EOF a))\<lparr>esc := False\<rparr>"

fun fw_scan :: "scan \<Rightarrow> ustring \<Rightarrow> error + scan" where
  "fw_scan a [] = Inr (fw_eof a)"
| "fw_scan a (c # cs) =
     (case fw_step c cs a of
        Inl e \<Rightarrow> Inl e
      | Inr (a', k) \<Rightarrow> fw_scan a' (drop k cs))"

definition fw_initial :: scan where
  "fw_initial = \<lparr>out = [], run = 0, quote = False, percent = False, esc = False, fmt = False\<rparr>"

text \<open>The states of the loop that the scanner stands for: at the head of an iteration
  (\<open>conc\<close>), inside an iteration with the current element \<open>cur\<close> still present or
  already deleted (\<open>mid\<close>), and after the iteration of the marker (\<open>finished\<close>).\<close>

definition mid :: "scan \<Rightarrow> codepoint option list \<Rightarrow> codepoint option list \<Rightarrow> state" where
  "mid a cur rest =
     \<lparr>text = map Some (out a) @ cur @ rest,
      i = int (length (out a)) + int (length cur) - 1,
      space_count = int (run a), active_quote = quote a, active_percent = percent a,
      active_escape = esc a, formatted = fmt a\<rparr>"

definition conc :: "scan \<Rightarrow> ustring \<Rightarrow> state" where
  "conc a todo =
     \<lparr>text = map Some (out a @ todo) @ [EOF], i = int (length (out a)),
      space_count = int (run a), active_quote = quote a, active_percent = percent a,
      active_escape = esc a, formatted = fmt a\<rparr>"

definition finished :: "scan \<Rightarrow> state" where
  "finished a =
     \<lparr>text = map Some (out a) @ [EOF], i = int (length (out a)) + 1,
      space_count = int (run a), active_quote = quote a, active_percent = percent a,
      active_escape = esc a, formatted = fmt a\<rparr>"

definition finish :: "error + scan \<Rightarrow> error + state" where
  "finish r = (case r of Inl e \<Rightarrow> Inl e | Inr a \<Rightarrow> Inr (finished a))"

definition scan_inv :: "scan \<Rightarrow> bool" where
  "scan_inv a = (run a \<le> length (out a) \<and> (esc a \<longrightarrow> out a \<noteq> []))"


section \<open>The loop computes what the forward scanner computes\<close>

subsection \<open>List primitives on a buffer split at the index\<close>

lemma py_bound_nat: "0 \<le> k \<Longrightarrow> k \<le> int (length xs) \<Longrightarrow> py_bound xs k = nat k"
  by (simp add: py_bound_def Let_def)

lemma py_index_nat: "0 \<le> k \<Longrightarrow> k < int (length xs) \<Longrightarrow> py_index xs k = Inr (nat k)"
  by (simp add: py_index_def Let_def)

lemma py_getitem_app:
  "k = int (length xs) \<Longrightarrow> py_getitem (xs @ y # zs) k = Inr y"
  by (simp add: py_getitem_def py_index_nat)

lemma py_setitem_app:
  "k = int (length xs) \<Longrightarrow> py_setitem (xs @ y # zs) k v = Inr (xs @ v # zs)"
  by (simp add: py_setitem_def py_index_nat)

lemma py_delitem_app:
  "k = int (length xs) \<Longrightarrow> py_delitem (xs @ y # zs) k = Inr (xs @ zs)"
  by (simp add: py_delitem_def py_index_nat)

lemma py_setslice_app:
  "lo = int (length xs) \<Longrightarrow> hi = int (length xs + length ys) \<Longrightarrow>
   py_setslice (xs @ ys @ zs) lo hi new = xs @ new @ zs"
  by (simp add: py_setslice_def py_bound_nat Let_def)

lemma py_getslice_app:
  "lo = int (length xs) \<Longrightarrow> hi = int (length xs + length ys) \<Longrightarrow>
   py_getslice (xs @ ys @ zs) lo hi = ys"
  by (simp add: py_getslice_def py_bound_nat)

lemma mid_whitespace:
  assumes "run a \<le> length (out a)"
  shows "handle_whitespace c (mid a [c] rest) = Inr (mid (fw_whitespace c a) [c] rest)"
proof -
  define p where "p = take (length (out a) - run a) (out a)"
  define w where "w = drop (length (out a) - run a) (out a)"
  have pw: "out a = p @ w" and lw: "length w = run a" and lp: "length p = length (out a) - run a"
    using assms by (simp_all add: p_def w_def)
  have collapse:
    "py_setslice (map Some (out a) @ c # rest) (int (length (out a)) - int (run a))
        (int (length (out a))) [Some SPACE] = map Some p @ [Some SPACE] @ c # rest"
    using py_setslice_app [of "int (length (out a)) - int (run a)" "map Some p"
        "int (length (out a))" "map Some w" "c # rest" "[Some SPACE]"] assms
    by (simp add: pw lw)
  have single: "run a = 1 \<Longrightarrow>
    py_setitem (map Some (out a) @ c # rest) (int (length (out a)) - 1) (Some SPACE)
      = Inr (map Some (butlast (out a)) @ Some SPACE # c # rest)"
  proof -
    assume r: "run a = 1"
    then obtain x where w: "w = [x]" using lw by (cases w) auto
    have "out a = p @ [x]" by (simp add: pw w)
    then show ?thesis
      using py_setitem_app [of "int (length (out a)) - 1" "map Some p" "Some x" "c # rest" "Some SPACE"]
      by simp
  qed
  show ?thesis
    using collapse single assms
    by (auto simp add: handle_whitespace_def fw_whitespace_def mid_def p_def)
qed

lemma mid_quotes:
  "handle_quotes c (mid a [c] rest) =
     Inr (if c = Some DQUOTE \<and> \<not> esc a then mid (a\<lparr>quote := \<not> quote a\<rparr>) [] rest
          else mid a [c] rest)"
  by (cases "c = Some DQUOTE \<and> \<not> esc a")
     (simp_all add: handle_quotes_def mid_def py_delitem_app)

lemma mid_percent:
  "handle_percent c (mid a cur rest) = mid (fw_percent c a) cur rest"
  by (simp add: handle_percent_def fw_percent_def mid_def)

lemma mid_escapes_deleted_quote:
  "\<not> esc a \<Longrightarrow> handle_escapes (Some DQUOTE) (mid a [] rest) = Inr (mid a [] rest)"
  by (simp add: handle_escapes_def mid_def)

lemma mid_escapes_backslash:
  "handle_escapes (Some BACKSLASH) (mid a [Some BACKSLASH] rest) =
     Inr (if esc a then mid (a\<lparr>esc := False\<rparr>) [] rest
          else mid (a\<lparr>esc := True\<rparr>) [Some BACKSLASH] rest)"
  by (simp add: handle_escapes_def mid_def py_delitem_app)

lemma mid_escapes_plain:
  "c \<noteq> Some BACKSLASH \<Longrightarrow> \<not> esc a \<Longrightarrow>
   handle_escapes c (mid a [c] rest) = Inr (mid a [c] rest)"
  by (simp add: handle_escapes_def mid_def)

lemma mid_escapes_eof:
  "handle_escapes EOF (mid a [EOF] rest) = Inr (mid (a\<lparr>esc := False\<rparr>) [EOF] rest)"
  by (simp add: handle_escapes_def mid_def)

lemma int_length_pred: "xs \<noteq> [] \<Longrightarrow> int (length xs - Suc 0) = int (length xs) - 1"
  by (cases xs) auto

lemma butlast_split: "xs \<noteq> [] \<Longrightarrow> map Some xs = map Some (butlast xs) @ [Some (last xs)]"
  by (metis append_butlast_last_id list.simps(8) list.simps(9) map_append)

lemma mid_escapes_replace:
  assumes "out a \<noteq> []"
  shows "py_setslice (map Some (out a) @ [c] @ rest) (int (length (out a)) + int (length [c]) - 1 - 1)
           (int (length (out a)) + int (length [c]) - 1 + 1) new
         = map Some (butlast (out a)) @ new @ rest"
proof -
  have "py_setslice (map Some (butlast (out a)) @ [Some (last (out a)), c] @ rest)
          (int (length (out a)) - 1) (int (length (out a)) + 1) new
        = map Some (butlast (out a)) @ new @ rest"
    using assms by (intro py_setslice_app) (auto simp add: int_length_pred)
  then show ?thesis using assms by (simp add: butlast_split)
qed

lemma mid_escapes_drop:
  assumes "out a \<noteq> []"
  shows "py_setslice (map Some (out a) @ [c] @ rest) (int (length (out a)) + int (length [c]) - 1 - 1)
           (int (length (out a)) + int (length [c]) - 1) []
         = map Some (butlast (out a)) @ [c] @ rest"
proof -
  have "py_setslice (map Some (butlast (out a)) @ [Some (last (out a))] @ c # rest)
          (int (length (out a)) - 1) (int (length (out a))) []
        = map Some (butlast (out a)) @ [] @ c # rest"
    using assms by (intro py_setslice_app) (auto simp add: int_length_pred)
  then show ?thesis using assms by (simp add: butlast_split)
qed

lemma mid_escapes_n:
  "esc a \<Longrightarrow> out a \<noteq> [] \<Longrightarrow>
   handle_escapes (Some 110) (mid a [Some 110] rest) =
     Inr (mid (a\<lparr>out := butlast (out a), esc := False\<rparr>) [Some NEWLINE] rest)"
  using mid_escapes_replace [of a "Some 110" rest "[Some NEWLINE]"]
  by (simp add: handle_escapes_def mid_def int_length_pred)

lemma mid_escapes_t:
  "esc a \<Longrightarrow> out a \<noteq> [] \<Longrightarrow>
   handle_escapes (Some 116) (mid a [Some 116] rest) =
     Inr (mid (a\<lparr>out := butlast (out a), esc := False\<rparr>) [Some TAB] rest)"
  using mid_escapes_replace [of a "Some 116" rest "[Some TAB]"]
  by (simp add: handle_escapes_def mid_def int_length_pred)

lemma mid_escapes_literal:
  "esc a \<Longrightarrow> out a \<noteq> [] \<Longrightarrow> c \<in> {DQUOTE, SQUOTE, AT} \<Longrightarrow>
   handle_escapes (Some c) (mid a [Some c] rest) =
     Inr (mid (a\<lparr>out := butlast (out a), esc := False\<rparr>) [Some c] rest)"
  using mid_escapes_drop [of a "Some c" rest]
  by (auto simp add: handle_escapes_def mid_def int_length_pred)

lemma mid_escapes_unsupported:
  "esc a \<Longrightarrow> c \<notin> {BACKSLASH, 110, 116, DQUOTE, SQUOTE, AT, 117} \<Longrightarrow>
   handle_escapes (Some c) (mid a [Some c] rest) = Inl (NameError ''name'')"
  by (simp add: handle_escapes_def mid_def)

lemma py_join_Some: "py_join (map Some xs) = Inr xs"
  by (simp add: py_join_def comp_def image_iff)

lemma mid_unicode:
  assumes "out a \<noteq> []"
  shows "unicode_sequence (mid a [Some 117] (map Some cs @ [EOF])) =
     (case parse_codepoint (take 4 cs) of
        Inl e \<Rightarrow> Inl e
      | Inr cp \<Rightarrow>
          Inr (mid (a\<lparr>out := butlast (out a)\<rparr>) [Some cp] (map Some (drop 4 cs) @ [EOF])))"
proof -
  let ?s = "mid a [Some 117] (map Some cs @ [EOF])"
  let ?m = "int (length (out a)) + 1 + int (length (take 4 cs))"
  have split1: "text ?s = (map Some (out a) @ [Some 117]) @ map Some (take 4 cs) @ (map Some (drop 4 cs) @ [EOF])"
    by (simp add: mid_def flip: map_append)
  have split2: "text ?s = map Some (butlast (out a)) @ ([Some (last (out a)), Some 117] @ map Some (take 4 cs))
      @ (map Some (drop 4 cs) @ [EOF])"
    using assms by (simp add: mid_def butlast_split flip: map_append)
  have i: "i ?s = int (length (out a))" by (simp add: mid_def)
  have m: "min (i ?s + 5) (int (length (text ?s)) - 1) = ?m"
    by (simp add: mid_def min_def)
  have get: "py_getslice (text ?s) (i ?s + 1) ?m = map Some (take 4 cs)"
    unfolding split1 i by (rule py_getslice_app) simp_all
  have set: "py_setslice (text ?s) (i ?s - 1) ?m [Some cp] =
      map Some (butlast (out a)) @ [Some cp] @ (map Some (drop 4 cs) @ [EOF])" for cp
    unfolding split2 i using assms by (intro py_setslice_app) (simp_all add: int_length_pred)
  show ?thesis
    unfolding unicode_sequence_def Let_def m get py_join_Some set
    using assms by (simp add: mid_def int_length_pred split: sum.splits)
qed

lemma mid_escapes_u:
  assumes "esc a" "out a \<noteq> []"
  shows "handle_escapes (Some 117) (mid a [Some 117] (map Some cs @ [EOF])) =
     (case parse_codepoint (take 4 cs) of
        Inl e \<Rightarrow> Inl e
      | Inr cp \<Rightarrow>
          Inr (mid (a\<lparr>out := butlast (out a), esc := False\<rparr>) [Some cp]
                 (map Some (drop 4 cs) @ [EOF])))"
proof -
  have "handle_escapes (Some 117) (mid a [Some 117] (map Some cs @ [EOF])) =
     (case unicode_sequence (mid a [Some 117] (map Some cs @ [EOF])) of
        Inl e \<Rightarrow> Inl e | Inr s' \<Rightarrow> Inr (s'\<lparr>active_escape := False\<rparr>))"
    using assms by (simp add: handle_escapes_def mid_def)
  also have "\<dots> = (case parse_codepoint (take 4 cs) of
        Inl e \<Rightarrow> Inl e
      | Inr cp \<Rightarrow>
          Inr (mid (a\<lparr>out := butlast (out a), esc := False\<rparr>) [Some cp]
                 (map Some (drop 4 cs) @ [EOF])))"
    unfolding mid_unicode [OF assms(2)] by (simp add: mid_def split: sum.splits)
  finally show ?thesis .
qed

lemma conc_mid: "conc a (c # cs) = mid a [Some c] (map Some cs @ [EOF])"
  by (simp add: conc_def mid_def)

lemma conc_mid_eof: "conc a [] = mid a [EOF] []"
  by (simp add: conc_def mid_def)

lemma getitem_mid: "py_getitem (text (mid a [c] rest)) (i (mid a [c] rest)) = Inr c"
  by (simp add: mid_def py_getitem_app)

lemma advance_deleted:
  "(mid a [] (map Some cs @ [EOF]))\<lparr>i := i (mid a [] (map Some cs @ [EOF])) + 1\<rparr> = conc a cs"
  by (simp add: mid_def conc_def)

lemma advance_kept:
  "(mid a [Some d] (map Some cs @ [EOF]))\<lparr>i := i (mid a [Some d] (map Some cs @ [EOF])) + 1\<rparr>
     = conc (a\<lparr>out := out a @ [d]\<rparr>) cs"
  by (simp add: mid_def conc_def)

lemma advance_eof:
  "(mid a [EOF] [])\<lparr>i := i (mid a [EOF] []) + 1\<rparr> = finished a"
  by (simp add: mid_def finished_def)

lemma esc_fw_whitespace [simp]: "esc (fw_whitespace c a) = esc a"
  by (simp add: fw_whitespace_def)

lemma esc_fw_percent [simp]: "esc (fw_percent c a) = esc a"
  by (simp add: fw_percent_def)

lemma out_fw_percent [simp]: "out (fw_percent c a) = out a"
  by (simp add: fw_percent_def)

lemma out_fw_whitespace_nonempty: "out a \<noteq> [] \<Longrightarrow> out (fw_whitespace c a) \<noteq> []"
  by (simp add: fw_whitespace_def)

lemma body_step:
  assumes inv: "scan_inv a"
  shows "loop_body (conc a (c # cs)) =
     (case fw_step c cs a of
        Inl e \<Rightarrow> Inl e
      | Inr (a', k) \<Rightarrow> Inr (conc a' (drop k cs)))"
proof -
  let ?R = "map Some cs @ [EOF]"
  let ?a1 = "fw_whitespace (Some c) a"
  let ?a2 = "fw_percent (Some c) ?a1"
  have ws: "handle_whitespace (Some c) (mid a [Some c] ?R) = Inr (mid ?a1 [Some c] ?R)"
    using inv by (simp add: scan_inv_def mid_whitespace)
  have ne: "esc a \<Longrightarrow> out ?a2 \<noteq> []"
    using inv by (simp add: scan_inv_def out_fw_whitespace_nonempty)
  have start: "loop_body (conc a (c # cs)) =
      (case handle_quotes (Some c) (mid ?a1 [Some c] ?R) of
         Inl e \<Rightarrow> Inl e
       | Inr s2 \<Rightarrow>
           (case handle_escapes (Some c) (handle_percent (Some c) s2) of
              Inl e \<Rightarrow> Inl e
            | Inr s4 \<Rightarrow> Inr (s4\<lparr>i := i s4 + 1\<rparr>)))"
    by (simp add: loop_body_def conc_mid getitem_mid ws)
  show ?thesis
  proof (cases "c = DQUOTE \<and> \<not> esc a")
    case True
    then show ?thesis
      unfolding start
      by (simp add: mid_quotes mid_percent mid_escapes_deleted_quote advance_deleted
          fw_step_def Let_def)
  next
    case False
    have q: "handle_quotes (Some c) (mid ?a1 [Some c] ?R) = Inr (mid ?a1 [Some c] ?R)"
      using False by (auto simp add: mid_quotes)
    have mid': "loop_body (conc a (c # cs)) =
        (case handle_escapes (Some c) (mid ?a2 [Some c] ?R) of
              Inl e \<Rightarrow> Inl e
            | Inr s4 \<Rightarrow> Inr (s4\<lparr>i := i s4 + 1\<rparr>))"
      unfolding start q by (simp add: mid_percent)
    consider (bs) "c = BACKSLASH" | (plain) "c \<noteq> BACKSLASH" "\<not> esc a"
      | (n) "esc a" "c = 110" | (t) "esc a" "c = 116"
      | (lit) "esc a" "c \<in> {DQUOTE, SQUOTE, AT}" | (u) "esc a" "c = 117"
      | (bad) "esc a" "c \<notin> {BACKSLASH, 110, 116, DQUOTE, SQUOTE, AT, 117}"
      by blast
    then show ?thesis
    proof cases
      case bs
      then show ?thesis
        unfolding mid'
        by (simp add: mid_escapes_backslash advance_deleted advance_kept fw_step_def Let_def conc_def)
    next
      case plain
      then show ?thesis
        unfolding mid' using False
        by (simp add: mid_escapes_plain advance_kept fw_step_def Let_def)
    next
      case n
      then show ?thesis
        unfolding mid' using ne
        by (simp add: mid_escapes_n advance_kept fw_step_def Let_def conc_def)
    next
      case t
      then show ?thesis
        unfolding mid' using ne
        by (simp add: mid_escapes_t advance_kept fw_step_def Let_def conc_def)
    next
      case lit
      then show ?thesis
        unfolding mid' using ne mid_escapes_literal [of ?a2 c ?R]
        by (auto simp add: advance_kept fw_step_def Let_def conc_def)
    next
      case u
      then show ?thesis
        unfolding mid' using ne
        by (simp add: mid_escapes_u advance_kept fw_step_def Let_def conc_def split: sum.splits)
    next
      case bad
      then show ?thesis
        unfolding mid' using mid_escapes_unsupported [of ?a2 c ?R]
        by (simp add: fw_step_def Let_def)
    qed
  qed
qed

lemma body_eof:
  assumes inv: "scan_inv a"
  shows "loop_body (conc a []) = Inr (finished (fw_eof a))"
proof -
  have ws: "handle_whitespace EOF (mid a [EOF] []) = Inr (mid (fw_whitespace EOF a) [EOF] [])"
    using inv by (simp add: scan_inv_def mid_whitespace)
  show ?thesis
    by (simp add: loop_body_def conc_mid_eof getitem_mid ws mid_quotes mid_percent
        mid_escapes_eof advance_eof fw_eof_def)
qed

lemma unescape_loop_upto_Some:
  "unescape_loop_upto n s = Some r \<Longrightarrow> unescape_loop s = Some r"
proof (induction n arbitrary: s)
  case 0
  then show ?case
    by (subst unescape_loop.simps) (simp split: if_splits)
next
  case (Suc n)
  then show ?case
    by (subst unescape_loop.simps) (auto split: if_splits sum.splits)
qed

lemma run_fw_percent [simp]: "run (fw_percent c a) = run a"
  by (simp add: fw_percent_def)

lemma fw_whitespace_blank:
  "c \<in> set WHITESPACE \<Longrightarrow> fw_whitespace (Some c) a = a\<lparr>run := run a + 1\<rparr>"
  by (simp add: fw_whitespace_def)

lemma fw_whitespace_other:
  "c \<notin> set WHITESPACE \<Longrightarrow> run (fw_whitespace (Some c) a) = 0"
  by (simp add: fw_whitespace_def)

lemma fw_step_inv:
  assumes "scan_inv a" "fw_step c cs a = Inr (a', k)"
  shows "scan_inv a'"
proof (cases "c \<in> set WHITESPACE")
  case True
  have "fw_step c cs a =
      (if esc a then Inl (NameError ''name'')
       else Inr ((fw_percent (Some c) (a\<lparr>run := run a + 1\<rparr>))\<lparr>out := out a @ [c]\<rparr>, 0))"
    using True by (auto simp add: fw_step_def fw_whitespace_blank Let_def WHITESPACE_def)
  then show ?thesis
    using assms by (auto simp add: scan_inv_def split: if_splits)
next
  case False
  define a1 where "a1 = fw_whitespace (Some c) a"
  have r: "run a1 = 0" using False by (simp add: a1_def fw_whitespace_other)
  have "fw_step c cs a = Inr (a', k) \<Longrightarrow> run a' = 0 \<and> (esc a' \<longrightarrow> out a' \<noteq> [])"
    unfolding fw_step_def Let_def a1_def [symmetric]
    using r by (auto split: if_splits sum.splits)
  then show ?thesis using assms by (simp add: scan_inv_def)
qed

lemma fw_step_consumes:
  "fw_step c cs a = Inr (a', k) \<Longrightarrow> k = 0 \<or> k = 4"
  by (auto simp add: fw_step_def Let_def split: if_splits sum.splits)

lemma upto_fw_scan:
  "scan_inv a \<Longrightarrow> length todo < n \<Longrightarrow>
   unescape_loop_upto n (conc a todo) = Some (finish (fw_scan a todo))"
proof (induction a todo arbitrary: n rule: fw_scan.induct)
  case (1 a)
  then obtain m where n: "n = Suc m" by (cases n) auto
  have "i (conc a []) < int (length (text (conc a [])))" by (simp add: conc_def)
  moreover have "\<not> i (finished (fw_eof a)) < int (length (text (finished (fw_eof a))))"
    by (simp add: finished_def)
  ultimately show ?case
    using 1 by (cases m) (simp_all add: n body_eof finish_def)
next
  case (2 a c cs)
  then obtain m where n: "n = Suc m" by (cases n) auto
  have lt: "i (conc a (c # cs)) < int (length (text (conc a (c # cs))))" by (simp add: conc_def)
  show ?case
  proof (cases "fw_step c cs a")
    case (Inl e)
    then show ?thesis using 2 lt by (simp add: n body_step finish_def)
  next
    case (Inr p)
    obtain a' k where p: "p = (a', k)" by (cases p)
    have "scan_inv a'" using fw_step_inv [OF "2.prems"(1)] Inr p by simp
    moreover have "length (drop k cs) < m" using "2.prems"(2) n by simp
    ultimately have "unescape_loop_upto m (conc a' (drop k cs)) =
        Some (finish (fw_scan a' (drop k cs)))"
      using "2.IH" Inr p by simp
    then show ?thesis using 2 lt Inr p by (simp add: n body_step)
  qed
qed

lemma conc_initial: "conc fw_initial t = initial_state t"
  by (simp add: conc_def fw_initial_def initial_state_def)

lemma scan_inv_initial: "scan_inv fw_initial"
  by (simp add: scan_inv_def fw_initial_def)

lemma upto_initial:
  "length t < n \<Longrightarrow>
   unescape_loop_upto n (initial_state t) = Some (finish (fw_scan fw_initial t))"
  using upto_fw_scan [OF scan_inv_initial, of t n] by (simp add: conc_initial)

lemma final_state_fw:
  "final_state t0 = Some (finish (fw_scan fw_initial (preprocess t0)))"
proof -
  have "unescape_loop_upto (Suc (length (preprocess t0))) (initial_state (preprocess t0)) =
      Some (finish (fw_scan fw_initial (preprocess t0)))"
    by (rule upto_initial) simp
  then show ?thesis
    unfolding final_state_def by (rule unescape_loop_upto_Some)
qed

lemma result_of_finished: "py_join (py_getslice (text (finished a)) 0 (- 1)) = Inr (out a)"
proof -
  have "py_getslice (map Some (out a) @ [EOF]) 0 (- 1) = map Some (out a)"
    by (simp add: py_getslice_def py_bound_def)
  then show ?thesis by (simp add: finished_def py_join_Some)
qed

lemma unescape_fw:
  "unescape (Some t0) =
     Some (case fw_scan fw_initial (preprocess t0) of
             Inl e \<Rightarrow> Inl e
           | Inr a \<Rightarrow> Inr (Some (out a)))"
  by (simp add: unescape_def final_state_fw finish_def result_of_finished split: sum.splits)

subsection \<open>Replacing a single character\<close>

lemma py_replace_char: "py_replace [c] new s = substitute c new s"
proof (induction s)
  case Nil
  show ?case by (subst py_replace.simps) (simp add: substitute_def)
next
  case (Cons x xs)
  show ?case
    by (subst py_replace.simps) (simp add: Cons substitute_def)
qed

lemma substitute_absent: "c \<notin> set s \<Longrightarrow> substitute c new s = s"
  by (induction s) (auto simp add: substitute_def)

lemma preprocess_Nil: "preprocess [] = []"
  by (simp add: preprocess_def py_replace_char substitute_def)

lemma preprocess_Cons:
  "preprocess (x # xs) =
     (if x = LESS then ustr ''&lt;'' else if x = GREATER then ustr ''&gt;'' else [x]) @ preprocess xs"
  by (simp add: preprocess_def py_replace_char substitute_def ustr_def)

lemma length_preprocess: "length (preprocess t0) \<le> 4 * length t0"
  by (induction t0) (simp_all add: preprocess_Nil preprocess_Cons ustr_def)

lemma preprocess_plain: "LESS \<notin> set s \<Longrightarrow> GREATER \<notin> set s \<Longrightarrow> preprocess s = s"
  by (simp add: preprocess_def py_replace_char substitute_absent)

lemma parse_codepoint_error:
  "parse_codepoint ds = Inl e \<Longrightarrow> e = ValueError (ustr ''bad unicode escape sequence'')"
  by (auto simp add: parse_codepoint_def Let_def split: sum.splits if_splits)

lemma fw_step_error:
  "fw_step c cs a = Inl e \<Longrightarrow>
   e = NameError ''name'' \<or> e = ValueError (ustr ''bad unicode escape sequence'')"
  by (auto simp add: fw_step_def Let_def split: if_splits sum.splits dest: parse_codepoint_error)

lemma fw_scan_error:
  "fw_scan a t = Inl e \<Longrightarrow>
   e = NameError ''name'' \<or> e = ValueError (ustr ''bad unicode escape sequence'')"
proof (induction a t rule: fw_scan.induct)
  case (1 a)
  then show ?case by simp
next
  case (2 a c cs)
  then show ?case
    by (cases "fw_step c cs a") (auto dest: fw_step_error)
qed

section \<open>Scanning words, runs of whitespace and quotes\<close>


definition settle :: "bool \<Rightarrow> ustring \<Rightarrow> ustring" where
  "settle q ws =
     (if length ws > 1 then (if q then ws else [SPACE])
      else if length ws = 1 then [SPACE] else [])"

lemma fw_step_plain:
  "c \<noteq> DQUOTE \<Longrightarrow> c \<noteq> BACKSLASH \<Longrightarrow> \<not> esc a \<Longrightarrow>
   fw_step c cs a =
     Inr ((fw_percent (Some c) (fw_whitespace (Some c) a))
            \<lparr>out := out (fw_whitespace (Some c) a) @ [c]\<rparr>, 0)"
  by (simp add: fw_step_def Let_def)

lemma quote_fw_percent [simp]: "quote (fw_percent c a) = quote a"
  by (simp add: fw_percent_def)

lemma quote_fw_whitespace [simp]: "quote (fw_whitespace c a) = quote a"
  by (simp add: fw_whitespace_def)

lemma out_fw_whitespace_blank: "c \<in> set WHITESPACE \<Longrightarrow> out (fw_whitespace (Some c) a) = out a"
  by (simp add: fw_whitespace_def)

lemma run_fw_whitespace_blank: "c \<in> set WHITESPACE \<Longrightarrow> run (fw_whitespace (Some c) a) = run a + 1"
  by (simp add: fw_whitespace_def)

lemma out_fw_whitespace_settle:
  assumes "c \<noteq> Some SPACE" "c \<noteq> Some NEWLINE" "c \<noteq> Some TAB" "c \<noteq> EOF"
    and "out a = ou @ ws" "length ws = run a"
  shows "out (fw_whitespace c a) = ou @ settle (quote a) ws"
proof -
  have nb: "\<not> (c \<noteq> EOF \<and> the c \<in> set WHITESPACE)"
    using assms by (cases c) (auto simp add: WHITESPACE_def)
  show ?thesis
  proof (cases "run a = 1")
    case True
    then obtain x where "ws = [x]" using assms(6) by (cases ws) auto
    then show ?thesis using assms nb True by (simp add: fw_whitespace_def settle_def)
  next
    case False
    then show ?thesis using assms nb
      by (cases "run a = 0") (auto simp add: fw_whitespace_def settle_def)
  qed
qed

lemma run_fw_whitespace_settle:
  assumes "c \<noteq> Some SPACE" "c \<noteq> Some NEWLINE" "c \<noteq> Some TAB"
  shows "run (fw_whitespace c a) = 0"
  using assms by (cases c) (auto simp add: fw_whitespace_def WHITESPACE_def)


lemma scan_eof:
  assumes "out a = ou @ ws" "length ws = run a"
  shows "\<exists>a'. fw_scan a [] = Inr a' \<and> out a' = ou @ (if ws = [] then [] else [SPACE])"
proof (cases "run a = 1")
  case True
  then obtain x where "ws = [x]" using assms(2) by (cases ws) auto
  then show ?thesis using assms True by (simp add: fw_eof_def fw_whitespace_def)
next
  case False
  then show ?thesis using assms
    by (cases "run a = 0") (auto simp add: fw_eof_def fw_whitespace_def)
qed


lemma butlast_snoc_last: "xs \<noteq> [] \<Longrightarrow> last xs = x \<Longrightarrow> xs = butlast xs @ [x]"
  using append_butlast_last_id [of xs] by simp

lemma scan_spaced:
  assumes "\<forall>c\<in>set t. c \<notin> {DQUOTE, BACKSLASH, NEWLINE, TAB}"
    and "\<not> adjacent_spaces t" "\<not> esc a"
    and "run a = 0 \<or> (run a = 1 \<and> out a \<noteq> [] \<and> last (out a) = SPACE \<and> (t = [] \<or> hd t \<noteq> SPACE))"
  shows "\<exists>a'. fw_scan a t = Inr a' \<and> out a' = out a @ t"
  using assms
proof (induction t arbitrary: a)
  case Nil
  define ws where "ws = (if run a = 0 then [] else [SPACE :: codepoint])"
  define ou where "ou = (if run a = 0 then out a else butlast (out a))"
  have sp: "out a = ou @ ws" "length ws = run a"
    using Nil.prems(4) butlast_snoc_last [of "out a" SPACE] by (auto simp add: ws_def ou_def)
  have w: "(if ws = [] then [] else [SPACE]) = ws"
    by (simp add: ws_def)
  from scan_eof [OF sp] obtain a' where "fw_scan a [] = Inr a'"
      "out a' = ou @ (if ws = [] then [] else [SPACE])"
    by blast
  then show ?case unfolding w using sp(1) by simp
next
  case (Cons c t)
  let ?w = "fw_whitespace (Some c) a"
  let ?a1 = "(fw_percent (Some c) ?w)\<lparr>out := out ?w @ [c]\<rparr>"
  have c: "c \<noteq> DQUOTE" "c \<noteq> BACKSLASH" "c \<noteq> NEWLINE" "c \<noteq> TAB"
    using Cons.prems(1) by simp_all
  have st: "fw_step c t a = Inr (?a1, 0)"
    using c Cons.prems(3) by (intro fw_step_plain)
  have rest: "\<forall>c\<in>set t. c \<notin> {DQUOTE, BACKSLASH, NEWLINE, TAB}" "\<not> adjacent_spaces t"
    using Cons.prems(1,2) by (simp, cases t) auto
  have e1: "\<not> esc ?a1" using Cons.prems(3) by simp
  have "out ?a1 = out a @ [c] \<and>
      (run ?a1 = 0 \<or> (run ?a1 = 1 \<and> out ?a1 \<noteq> [] \<and> last (out ?a1) = SPACE \<and> (t = [] \<or> hd t \<noteq> SPACE)))"
  proof (cases "c = SPACE")
    case True
    then have b: "c \<in> set WHITESPACE" by (simp add: WHITESPACE_def)
    have w: "out ?w = out a" "run ?w = run a + 1"
      using b by (simp_all add: out_fw_whitespace_blank run_fw_whitespace_blank)
    have "run a = 0" using Cons.prems(4) True by auto
    moreover have "t = [] \<or> hd t \<noteq> SPACE"
      using Cons.prems(2) True by (cases t) auto
    ultimately show ?thesis
      using True w by simp
  next
    case False
    define ws where "ws = (if run a = 0 then [] else [SPACE :: codepoint])"
    define ou where "ou = (if run a = 0 then out a else butlast (out a))"
    have split: "out a = ou @ ws" "length ws = run a"
      using Cons.prems(4) butlast_snoc_last [of "out a" SPACE] by (auto simp add: ws_def ou_def)
    have nb: "Some c \<noteq> Some SPACE" "Some c \<noteq> Some NEWLINE" "Some c \<noteq> Some TAB" "Some c \<noteq> EOF"
      using False c by simp_all
    have "out ?w = ou @ settle (quote a) ws"
      using nb split by (rule out_fw_whitespace_settle)
    moreover have "settle (quote a) ws = ws"
      by (simp add: settle_def ws_def)
    moreover have "run ?w = 0"
      using nb(1,2,3) by (rule run_fw_whitespace_settle)
    ultimately show ?thesis using split(1) by simp
  qed
  then have o1: "out ?a1 = out a @ [c]"
    and r1: "run ?a1 = 0 \<or> (run ?a1 = 1 \<and> out ?a1 \<noteq> [] \<and> last (out ?a1) = SPACE \<and> (t = [] \<or> hd t \<noteq> SPACE))"
    by blast+
  obtain a' where a': "fw_scan ?a1 t = Inr a'" "out a' = out ?a1 @ t"
    using Cons.IH [OF rest e1 r1] by blast
  have "fw_scan a (c # t) = fw_scan ?a1 t"
    by (simp only: fw_scan.simps st sum.case prod.case drop_0)
  then show ?case
    using a' o1 by simp
qed

lemma escape_plain:
  assumes "\<forall>c\<in>set s. c \<notin> {BACKSLASH, DQUOTE, SQUOTE, NEWLINE, TAB}" "\<not> py_startswith s [AT]"
  shows "escape (Some s) = Some s"
proof -
  have "BACKSLASH \<notin> set s" "NEWLINE \<notin> set s" "TAB \<notin> set s" "SQUOTE \<notin> set s" "DQUOTE \<notin> set s"
    using assms(1) by blast+
  then show ?thesis
    using assms(2) by (simp add: escape_def py_replace_char substitute_absent)
qed

lemma ustr_Nil [simp]: "ustr [] = []"
  by (simp add: ustr_def)

lemma ustr_Cons [simp]: "ustr (c # cs) = of_char c # ustr cs"
  by (simp add: ustr_def)

section \<open>From a state in the middle of the scan\<close>





subsection \<open>Output that no later step changes\<close>






section \<open>Termination\<close>

text \<open>
  C9. For every input string the loop of \<open>unescape\<close> ends: at most
  \<open>4 * length t0 + 1\<close> iterations are needed (the replacement of \<open><\<close> and \<open>>\<close>
  by their entities makes the buffer at most four times as long as the input), the
  unbounded loop returns the same state or exception, and \<open>unescape\<close> returns.
\<close>

theorem unescape_terminates:
  "\<exists>r. unescape_loop_upto (4 * length t0 + 1) (initial_state (preprocess t0)) = Some r
       \<and> final_state t0 = Some r
       \<and> unescape (Some t0) \<noteq> None"
proof -
  have "length (preprocess t0) < 4 * length t0 + 1"
    using length_preprocess [of t0] by simp
  then have "unescape_loop_upto (4 * length t0 + 1) (initial_state (preprocess t0)) =
      Some (finish (fw_scan fw_initial (preprocess t0)))"
    by (rule upto_initial)
  then show ?thesis
    by (simp add: final_state_fw unescape_fw)
qed


section \<open>What \<open>unescape\<close> returns\<close>

text \<open>
  C2 (amended). For every non-absent input the scan ends; it either raises, and the
  exception is the one of the unsupported escape or the one of the unicode sequence, or
  it ends with the buffer holding a string followed by the end marker alone, and
  \<open>unescape\<close> returns exactly that string: a string, not a pair.
\<close>

theorem unescape_returns_string_only:
  "\<exists>r. final_state t0 = Some r \<and>
     (case r of
        Inl e \<Rightarrow>
          unescape (Some t0) = Some (Inl e)
          \<and> e \<in> {NameError ''name'', ValueError (ustr ''bad unicode escape sequence'')}
      | Inr s \<Rightarrow>
          (\<exists>logical. text s = map Some logical @ [EOF]
             \<and> unescape (Some t0) = Some (Inr (Some logical))))"
proof (cases "fw_scan fw_initial (preprocess t0)")
  case (Inl e)
  then show ?thesis
    using fw_scan_error [OF Inl]
    by (auto simp add: final_state_fw unescape_fw finish_def)
next
  case (Inr a)
  then show ?thesis
    by (auto simp add: final_state_fw unescape_fw finish_def finished_def)
qed

text \<open>
  C2 (as stated, refuted). The texts \<^verbatim>\<open>%%\<close> and \<^verbatim>\<open>%"%\<close> give the same result,
  the string \<^verbatim>\<open>%%\<close>, while the variable \<open>formatted\<close> ends false for the first
  and true for the second: the value computed for \<open>formatted\<close> is not part of what
  \<open>unescape\<close> returns.
\<close>

theorem formatted_flag_dropped:
  "unescape (Some [PERCENT, PERCENT]) = Some (Inr (Some [PERCENT, PERCENT]))
   \<and> unescape (Some [PERCENT, DQUOTE, PERCENT]) = Some (Inr (Some [PERCENT, PERCENT]))
   \<and> computed_formatted [PERCENT, PERCENT] = Some (Inr False)
   \<and> computed_formatted [PERCENT, DQUOTE, PERCENT] = Some (Inr True)"
  by code_simp

section \<open>Whitespace inside quotes\<close>

text \<open>
  C4. A single tab inside a closed quoted span is not passed through: \<^verbatim>\<open>"a<TAB>b"\<close>
  gives \<^verbatim>\<open>a b\<close>, with a space, because the branch for a run of exactly one
  character does not look at \<open>active_quote\<close>. The branch for longer runs does: two tabs
  in the same place are kept.
\<close>

theorem quoted_single_tab_becomes_space:
  "unescape (Some ([DQUOTE] @ ustr ''a'' @ [TAB] @ ustr ''b'' @ [DQUOTE]))
     = Some (Inr (Some (ustr ''a b'')))
   \<and> ustr ''a b'' \<noteq> ustr ''a'' @ [TAB] @ ustr ''b''
   \<and> unescape (Some ([DQUOTE] @ ustr ''a'' @ [TAB, TAB] @ ustr ''b'' @ [DQUOTE]))
     = Some (Inr (Some (ustr ''a'' @ [TAB, TAB] @ ustr ''b'')))"
  by code_simp




section \<open>Encoding, then decoding\<close>

text \<open>
  C3 (as stated, refuted). The strings \<^verbatim>\<open>a  b\<close> (two spaces) and \<^verbatim>\<open>a<b\<close> hold
  none of the excluded characters and do not start with \<open>@\<close>, yet decoding their
  encoding gives \<^verbatim>\<open>a b\<close> and \<^verbatim>\<open>a&lt;b\<close>.
\<close>

theorem round_trip_counterexample:
  "set (ustr ''a  b'') \<inter> {BACKSLASH, DQUOTE, SQUOTE, NEWLINE, TAB} = {}
   \<and> \<not> py_startswith (ustr ''a  b'') [AT]
   \<and> unescape (escape (Some (ustr ''a  b''))) = Some (Inr (Some (ustr ''a b'')))
   \<and> ustr ''a b'' \<noteq> ustr ''a  b''
   \<and> set [97, LESS, 98] \<inter> {BACKSLASH, DQUOTE, SQUOTE, NEWLINE, TAB} = {}
   \<and> \<not> py_startswith [97, LESS, 98] [AT]
   \<and> unescape (escape (Some [97, LESS, 98])) = Some (Inr (Some (ustr ''a&lt;b'')))
   \<and> ustr ''a&lt;b'' \<noteq> [97, LESS, 98]"
  by code_simp

text \<open>
  C3 (amended). For every string that holds no backslash, double quote, single quote,
  newline or tab, no \<open><\<close> or \<open>>\<close> and no two adjacent spaces, and that does not
  start with \<open>@\<close>, decoding the encoded string gives the string back.
\<close>

theorem round_trip_restricted:
  assumes "\<forall>c\<in>set s. c \<notin> {BACKSLASH, DQUOTE, SQUOTE, NEWLINE, TAB, LESS, GREATER}"
    and "\<not> py_startswith s [AT]"
    and "\<not> adjacent_spaces s"
  shows "unescape (escape (Some s)) = Some (Inr (Some s))"
proof -
  have p1: "\<forall>c\<in>set s. c \<notin> {BACKSLASH, DQUOTE, SQUOTE, NEWLINE, TAB}"
    and p2: "\<forall>c\<in>set s. c \<notin> {DQUOTE, BACKSLASH, NEWLINE, TAB}"
    using assms(1) by simp_all
  have "LESS \<notin> set s" "GREATER \<notin> set s"
    using assms(1) by blast+
  then have pre: "preprocess s = s" by (rule preprocess_plain)
  have enc: "escape (Some s) = Some s"
    using p1 assms(2) by (rule escape_plain)
  have "\<not> esc fw_initial" "run fw_initial = 0 \<or>
      (run fw_initial = 1 \<and> out fw_initial \<noteq> [] \<and> last (out fw_initial) = SPACE \<and> (s = [] \<or> hd s \<noteq> SPACE))"
    by (simp_all add: fw_initial_def)
  from scan_spaced [OF p2 assms(3) this]
  obtain a' where "fw_scan fw_initial s = Inr a'" "out a' = out fw_initial @ s"
    by blast
  then show ?thesis
    unfolding enc unescape_fw pre by (simp add: fw_initial_def)
qed

text \<open>The theorem at the string \<^verbatim>\<open>a b @c\<close>.\<close>

theorem round_trip_restricted_witness:
  "unescape (escape (Some (ustr ''a b @c''))) = Some (Inr (Some (ustr ''a b @c'')))"
  using round_trip_restricted [of "ustr ''a b @c''"]
  by (simp add: py_startswith_def)

section \<open>The encoder\<close>

lemma startswith_guard:
  "(if py_startswith r [AT] then [BACKSLASH, AT] @ tl r else r) =
     (if r \<noteq> [] \<and> hd r = AT then BACKSLASH # r else r)" for r :: ustring
  by (cases r) (simp_all add: py_startswith_def)

lemma escape_encode_spec: "escape (Some s) = Some (encode_spec s)"
  unfolding escape_def encode_spec_def py_replace_char Let_def startswith_guard by simp

lemma escape_mipmap:
  "escape (Some (ustr ''@mipmap/icon'')) = Some (BACKSLASH # ustr ''@mipmap/icon'')"
  by code_simp

text \<open>
  C7. For every string \<open>escape\<close> returns a string (it has no exception to raise): the
  one obtained by substituting, in this order, the backslash, the newline, the tab, the
  single quote and the double quote, and then putting a backslash in front when the
  result starts with \<open>@\<close>; \<^verbatim>\<open>@mipmap/icon\<close> becomes \<^verbatim>\<open>\@mipmap/icon\<close>.
\<close>

theorem escape_spec:
  "escape (Some s) = Some (encode_spec s)
   \<and> escape (Some (ustr ''@mipmap/icon'')) = Some (BACKSLASH # ustr ''@mipmap/icon'')"
  by (rule conjI) (rule escape_encode_spec, rule escape_mipmap)

section \<open>Values at concrete inputs\<close>

text \<open>
  C8. Absent input: \<open>unescape\<close> of \<^verbatim>\<open>None\<close> returns \<^verbatim>\<open>None\<close> and raises nothing,
  and \<open>escape\<close> of \<^verbatim>\<open>None\<close> returns \<^verbatim>\<open>None\<close>.
\<close>

theorem absent_propagates:
  "unescape None = Some (Inr None) \<and> escape None = None"
  by (simp add: unescape_def escape_def)

text \<open>
  C10. The empty string is kept apart from the absent value: \<open>unescape\<close> of the empty
  string returns the empty string, raising nothing and with the variable \<open>formatted\<close>
  still false, and \<open>escape\<close> of the empty string returns the empty string.
\<close>

theorem empty_string_fixed:
  "unescape (Some []) = Some (Inr (Some []))
   \<and> computed_formatted [] = Some (Inr False)
   \<and> escape (Some []) = Some []
   \<and> Some [] \<noteq> (None :: ustring option)"
  by code_simp

text \<open>
  C1. On the text \<^verbatim>\<open>a\qb\<close> the branch for an unsupported escape is reached, and
  what it raises is the \<^verbatim>\<open>NameError\<close> for the variable \<^verbatim>\<open>name\<close>: no error that
  carries a resource identifier or the sequence \<^verbatim>\<open>\q\<close>.
\<close>

theorem unsupported_escape_raises_NameError:
  "unescape (Some (ustr ''a'' @ [BACKSLASH] @ ustr ''qb'')) = Some (Inl (NameError ''name''))"
  by code_simp

text \<open>The definitions of the loop, for evaluating it by rewriting.\<close>

lemmas unescape_eval =
  unescape_def final_state_def preprocess_def py_replace.simps ustr_def initial_state_def
  unescape_loop.simps loop_body_def handle_whitespace_def handle_quotes_def
  handle_percent_def handle_escapes_def unicode_sequence_def parse_codepoint_def
  py_getitem_def py_index_def py_setitem_def py_delitem_def py_setslice_def
  py_getslice_def py_bound_def py_join_def py_isalnum_def is_alnum_def py_int16_def
  is_hex_def hex_value_def py_unichr_def WHITESPACE_def

text \<open>The unicode sequence with four digits, and with two digits at the end of the
  string, which are padded with zeros: both give \<^verbatim>\<open>A\<close>. Characters that are not
  digits give the exception of the \<^verbatim>\<open>except\<close> clause.\<close>

lemma unicode_escape_examples:
  "unescape (Some ([BACKSLASH] @ ustr ''u0041'')) = Some (Inr (Some (ustr ''A'')))"
  "unescape (Some ([BACKSLASH] @ ustr ''u41'')) = Some (Inr (Some (ustr ''A'')))"
  "unescape (Some ([BACKSLASH] @ ustr ''u00zz'')) =
     Some (Inl (ValueError (ustr ''bad unicode escape sequence'')))"
  by (simp_all add: unescape_eval numeral_2_eq_2)

text \<open>
  C6. On the text \<^verbatim>\<open>\u0x41\<close> the four characters taken after \<^verbatim>\<open>\u\<close> are
  \<^verbatim>\<open>0x41\<close>; \<^verbatim>\<open>x\<close> is not a hexadecimal digit, yet no error is raised and the
  result is \<^verbatim>\<open>A\<close>.
\<close>

theorem unicode_escape_accepts_0x_prefix:
  "unescape (Some ([BACKSLASH] @ ustr ''u0x41'')) = Some (Inr (Some (ustr ''A'')))"
  by (simp add: unescape_eval)

end
